theory Spec2Isabelle
  imports Complex_Main
begin

section \<open>Python values, exceptions and truthiness\<close>

text \<open>
  The program is one Python module, \<^verbatim>\<open>ObterUN.py\<close>. Its functions are embedded as HOL
  functions over a datatype of the Python values that can reach them: \<^verbatim>\<open>None\<close> and what
  \<^verbatim>\<open>response.json()\<close> can produce (booleans, integers, floats, strings, lists and
  dictionaries with string keys). A raise is a value \<open>Inl e\<close> of a sum type, a normal
  return is \<open>Inr v\<close>, and every \<^verbatim>\<open>try\<close>/\<^verbatim>\<open>except\<close> of the source is a case distinction
  on that sum, catching exactly the classes the source names.

  Strings are HOL strings; a character stands for the code point of the same number
  (U+0000 to U+00FF). Code points from U+0100 on are outside this string type.
\<close>

datatype py_exn =
    ValueError | TypeError | AttributeError | KeyError | IndexError | OverflowError
  | RecursionError | RequestException | HTTPError | JSONDecodeError

text \<open>
  A float is observed here only through its truth value and through \<^verbatim>\<open>int()\<close>, so a
  finite float is carried as the rational number it denotes.
\<close>

datatype pyfloat = Finite rat | NaN | Infinity bool

datatype pyval =
    PNone
  | PBool bool
  | PInt int
  | PFloat pyfloat
  | PStr string
  | PList "pyval list"
  | PDict "(string \<times> pyval) list"

text \<open>Python's truth value testing (\<^verbatim>\<open>bool(v)\<close>, \<^verbatim>\<open>not v\<close>, \<^verbatim>\<open>if v\<close>).\<close>

fun truthy :: "pyval \<Rightarrow> bool" where
  "truthy PNone = False"
| "truthy (PBool b) = b"
| "truthy (PInt n) = (n \<noteq> 0)"
| "truthy (PFloat f) = (f \<noteq> Finite 0)"
| "truthy (PStr s) = (s \<noteq> [])"
| "truthy (PList xs) = (xs \<noteq> [])"
| "truthy (PDict kvs) = (kvs \<noteq> [])"

text \<open>\<^verbatim>\<open>a and b\<close>: the value \<open>a\<close> when it is falsy, else the value \<open>b\<close>.\<close>

definition py_and :: "pyval \<Rightarrow> pyval \<Rightarrow> pyval" where
  "py_and a b = (if truthy a then b else a)"

text \<open>
  The exception classes named by the handlers of the source, with the subclass relation
  of Python and of the \<^verbatim>\<open>requests\<close> library: \<^verbatim>\<open>HTTPError\<close> is a \<^verbatim>\<open>RequestException\<close>;
  the error \<^verbatim>\<open>response.json()\<close> raises on a body that is not JSON
  (\<^verbatim>\<open>requests.exceptions.JSONDecodeError\<close>, here \<open>JSONDecodeError\<close>) is a
  \<^verbatim>\<open>RequestException\<close>, a \<^verbatim>\<open>json.JSONDecodeError\<close> and a \<^verbatim>\<open>ValueError\<close>.
\<close>

definition is_RequestException :: "py_exn \<Rightarrow> bool" where
  "is_RequestException e = (e = RequestException \<or> e = HTTPError \<or> e = JSONDecodeError)"

definition is_JSONDecodeError :: "py_exn \<Rightarrow> bool" where
  "is_JSONDecodeError e = (e = JSONDecodeError)"

definition is_ValueError :: "py_exn \<Rightarrow> bool" where
  "is_ValueError e = (e = ValueError \<or> e = JSONDecodeError)"

section \<open>The built-in \<^verbatim>\<open>int()\<close>\<close>

text \<open>
  \<^verbatim>\<open>int(s)\<close> on a string, base 10, as CPython reads it: whitespace is skipped at both
  ends, one sign may lead, then come decimal digits in groups separated by single
  underscores; anything else is a \<^verbatim>\<open>ValueError\<close>. The whitespace is the ASCII whitespace
  (tab, line feed, vertical tab, form feed, carriage return, space) and, of the code
  points modelled here, U+0085 and U+00A0, which CPython turns into a space first
  (the separators U+001C to U+001F are not skipped).
\<close>

definition py_isspace :: "char \<Rightarrow> bool" where
  "py_isspace c =
     (c \<in> set [CHR 0x09, CHR 0x0A, CHR 0x0B, CHR 0x0C, CHR 0x0D, CHR 0x20, CHR 0x85, CHR 0xA0])"

definition is_digit :: "char \<Rightarrow> bool" where
  "is_digit c = (c \<in> set ''0123456789'')"

definition digit_val :: "char \<Rightarrow> nat" where
  "digit_val c = of_char c - 48"

definition digit_char :: "nat \<Rightarrow> char" where
  "digit_char d = ''0123456789'' ! d"

definition is_digit_or_underscore :: "char \<Rightarrow> bool" where
  "is_digit_or_underscore c = (is_digit c \<or> c = CHR ''_'')"

fun double_underscore :: "string \<Rightarrow> bool" where
  "double_underscore (a # b # r) = ((a = CHR ''_'' \<and> b = CHR ''_'') \<or> double_underscore (b # r))"
| "double_underscore r = False"

definition digits_value :: "string \<Rightarrow> nat" where
  "digits_value ds = foldl (\<lambda>acc c. 10 * acc + digit_val c) 0 ds"

text \<open>
  CPython (3.11, and the security releases of 3.7 to 3.10) refuses to convert between
  \<^verbatim>\<open>str\<close> and \<^verbatim>\<open>int\<close> more than \<^verbatim>\<open>sys.get_int_max_str_digits()\<close> digits, with a
  \<^verbatim>\<open>ValueError\<close>. The limit is a setting of the interpreter, so it is a parameter
  \<open>maxd\<close> of every function that converts: it is switched off (the value 0, which is
  also how an older interpreter behaves) or it is 640 or more, since CPython refuses to
  set a limit between 1 and 639. The default is 4300. Numbers of up to 640 characters
  are never refused.
\<close>

datatype digit_limit = Unlimited | AtLeast640 nat

fun max_str_digits :: "digit_limit \<Rightarrow> nat" where
  "max_str_digits Unlimited = 0"
| "max_str_digits (AtLeast640 k) = 640 + k"

definition default_max_str_digits :: digit_limit where
  "default_max_str_digits = AtLeast640 3660"

definition str_digits_check_threshold :: nat where
  "str_digits_check_threshold = 640"

definition exceeds_max_str_digits :: "digit_limit \<Rightarrow> nat \<Rightarrow> bool" where
  "exceeds_max_str_digits maxd n =
     (str_digits_check_threshold < n \<and> 0 < max_str_digits maxd \<and> max_str_digits maxd < n)"

text \<open>
  The steps of the conversion, in CPython's order: skip the leading whitespace, take one
  sign, scan the digits and underscores (an underscore may stand only between two
  digits), apply the digit limit, skip the trailing whitespace and require the end of
  the string.
\<close>

definition is_negative :: "string \<Rightarrow> bool" where
  "is_negative s1 = (s1 \<noteq> [] \<and> hd s1 = CHR ''-'')"

definition skip_sign :: "string \<Rightarrow> string" where
  "skip_sign s1 = (if s1 \<noteq> [] \<and> (hd s1 = CHR ''+'' \<or> hd s1 = CHR ''-'') then tl s1 else s1)"

definition valid_digit_body :: "string \<Rightarrow> bool" where
  "valid_digit_body body =
     (body \<noteq> [] \<and> hd body \<noteq> CHR ''_'' \<and> last body \<noteq> CHR ''_'' \<and> \<not> double_underscore body)"

definition py_int_str :: "digit_limit \<Rightarrow> string \<Rightarrow> py_exn + int" where
  "py_int_str maxd s =
     (let s1 = dropWhile py_isspace s;
          s2 = skip_sign s1;
          body = takeWhile is_digit_or_underscore s2;
          rest = dropWhile is_digit_or_underscore s2;
          ds = filter is_digit body
      in if valid_digit_body body \<and> \<not> exceeds_max_str_digits maxd (length ds)
            \<and> dropWhile py_isspace rest = []
         then Inr ((if is_negative s1 then - 1 else 1) * int (digits_value ds))
         else Inl ValueError)"

text \<open>
  \<^verbatim>\<open>int(v)\<close> on any value of the model: a string is parsed, an integer is itself, a
  boolean is 0 or 1, a finite float is truncated towards zero, \<^verbatim>\<open>nan\<close> is a
  \<^verbatim>\<open>ValueError\<close>, an infinity an \<^verbatim>\<open>OverflowError\<close>, and \<^verbatim>\<open>None\<close>, a list or a dictionary
  a \<^verbatim>\<open>TypeError\<close>.
\<close>

fun py_int :: "digit_limit \<Rightarrow> pyval \<Rightarrow> py_exn + int" where
  "py_int maxd (PStr s) = py_int_str maxd s"
| "py_int maxd (PInt n) = Inr n"
| "py_int maxd (PBool b) = Inr (if b then 1 else 0)"
| "py_int maxd (PFloat (Finite q)) = Inr (if 0 \<le> q then \<lfloor>q\<rfloor> else \<lceil>q\<rceil>)"
| "py_int maxd (PFloat NaN) = Inl ValueError"
| "py_int maxd (PFloat (Infinity sg)) = Inl OverflowError"
| "py_int maxd PNone = Inl TypeError"
| "py_int maxd (PList xs) = Inl TypeError"
| "py_int maxd (PDict kvs) = Inl TypeError"

text \<open>
  The strings that \<^verbatim>\<open>int()\<close> accepts, for the statement of what
  \<^verbatim>\<open>compare_nfe_numbers\<close> accepts: whitespace, an optional sign, groups of digits joined by
  single underscores, whitespace. \<open>int_literal\<close> builds such a string from its parts
  and \<open>int_literal_value\<close> is the integer it denotes.
\<close>

fun join_groups :: "string list \<Rightarrow> string" where
  "join_groups [] = []"
| "join_groups [g] = g"
| "join_groups (g # h # gs) = g @ CHR ''_'' # join_groups (h # gs)"

definition is_digit_group :: "string \<Rightarrow> bool" where
  "is_digit_group g = (g \<noteq> [] \<and> list_all is_digit g)"

definition int_literal :: "string \<Rightarrow> string \<Rightarrow> string list \<Rightarrow> string \<Rightarrow> string" where
  "int_literal ws sign groups ws' = ws @ sign @ join_groups groups @ ws'"

definition is_int_literal :: "string \<Rightarrow> string \<Rightarrow> string list \<Rightarrow> string \<Rightarrow> bool" where
  "is_int_literal ws sign groups ws' =
     (list_all py_isspace ws \<and> sign \<in> set ['''', ''+'', ''-''] \<and> groups \<noteq> []
      \<and> list_all is_digit_group groups \<and> list_all py_isspace ws')"

definition int_literal_value :: "string \<Rightarrow> string list \<Rightarrow> int" where
  "int_literal_value sign groups =
     (if sign = ''-'' then - 1 else 1) * int (digits_value (concat groups))"

section \<open>Formatting an integer with \<^verbatim>\<open>0{width}d\<close>\<close>

text \<open>The decimal digits of a natural number, most significant first (\<open>''0''\<close> for 0).\<close>

function nat_digits :: "nat \<Rightarrow> string" where
  "nat_digits n = (if n < 10 then [digit_char n] else nat_digits (n div 10) @ [digit_char (n mod 10)])"
  by pat_completeness auto
termination
  by (relation "measure id") auto

declare nat_digits.simps [simp del]

text \<open>\<^verbatim>\<open>str(n)\<close> of an integer: its natural decimal representation.\<close>

definition py_str_int :: "int \<Rightarrow> string" where
  "py_str_int n = (if n < 0 then CHR ''-'' # nat_digits (nat (- n)) else nat_digits (nat n))"

text \<open>
  \<^verbatim>\<open>f"{n:0{width}d}"\<close>: the fill character is \<open>0\<close> and the padding goes between the sign
  and the digits, up to a total of \<open>width\<close> characters; a longer number is not cut. The
  conversion to decimal is subject to the digit limit.
\<close>

definition py_format_0d :: "digit_limit \<Rightarrow> nat \<Rightarrow> int \<Rightarrow> py_exn + string" where
  "py_format_0d maxd width n =
     (let ds = nat_digits (nat \<bar>n\<bar>);
          negative = (if n < 0 then 1 else 0 :: nat);
          strlen = length ds + negative
      in if str_digits_check_threshold < strlen \<and> 0 < max_str_digits maxd
            \<and> max_str_digits maxd < strlen - negative
         then Inl ValueError
         else Inr ((if n < 0 then ''-'' else '''') @ replicate (width - strlen) (CHR ''0'') @ ds))"

section \<open>Configuration\<close>

text \<open>The class \<^verbatim>\<open>Config\<close>: three class attributes, never assigned after their definition.\<close>

definition API_BASE_URL :: string where
  "API_BASE_URL = ''https://api.bling.com.br/Api/v3''"

definition MAX_WORKERS :: nat where
  "MAX_WORKERS = 2"

definition NFE_DIGITS :: nat where
  "NFE_DIGITS = 6"

text \<open>The enumeration \<^verbatim>\<open>NFeTipo\<close> and the \<^verbatim>\<open>.value\<close> of its members.\<close>

datatype NFeTipo = ENTRADA | SAIDA

fun NFeTipo_value :: "NFeTipo \<Rightarrow> int" where
  "NFeTipo_value ENTRADA = 0"
| "NFeTipo_value SAIDA = 1"

section \<open>Effects\<close>

text \<open>
  The program acts on the world in two ways: it calls \<^verbatim>\<open>requests.get\<close> and it prints
  lines. Each function of the model returns the list of the events it caused, in order,
  beside its result. A printed line is kept as the statement that printed it, with the
  values it interpolates.
\<close>

record http_request =
  req_method :: string
  req_url :: string
  req_headers :: "(string \<times> string) list"
  req_params :: "(string \<times> int) list"

datatype message =
    MsgNumero NFeTipo pyval
  | MsgNotFound NFeTipo
  | MsgRequestError NFeTipo py_exn
  | MsgParseError NFeTipo py_exn
  | MsgCompareError py_exn
  | MsgGettingCode
  | MsgGettingToken
  | MsgMax pyval
  | MsgUndetermined
  | MsgProgramError py_exn

datatype event = HttpGet http_request | Print message

section \<open>\<^verbatim>\<open>NFEProcessor.compare_nfe_numbers\<close>\<close>

text \<open>The body of the \<^verbatim>\<open>try\<close> block: two conversions, the maximum, the formatting.\<close>

definition compare_try :: "digit_limit \<Rightarrow> pyval \<Rightarrow> pyval \<Rightarrow> py_exn + pyval" where
  "compare_try maxd numero_entrada numero_saida =
     (case py_int maxd numero_entrada of
        Inl e \<Rightarrow> Inl e
      | Inr entrada_int \<Rightarrow>
          (case py_int maxd numero_saida of
             Inl e \<Rightarrow> Inl e
           | Inr saida_int \<Rightarrow>
               (case py_format_0d maxd NFE_DIGITS (max entrada_int saida_int) of
                  Inl e \<Rightarrow> Inl e
                | Inr s \<Rightarrow> Inr (PStr s))))"

definition compare_nfe_numbers :: "digit_limit \<Rightarrow> pyval \<Rightarrow> pyval \<Rightarrow> event list \<times> (py_exn + pyval)" where
  "compare_nfe_numbers maxd numero_entrada numero_saida =
     (if \<not> truthy (py_and numero_entrada numero_saida) then ([], Inr PNone)
      else
        (case compare_try maxd numero_entrada numero_saida of
           Inr v \<Rightarrow> ([], Inr v)
         | Inl e \<Rightarrow>
             if is_ValueError e then ([Print (MsgCompareError e)], Inr PNone)
             else ([], Inl e)))"

section \<open>Operations on decoded JSON\<close>

text \<open>
  A dictionary is the list of its items; the first item with a key is the entry of that
  key. \<^verbatim>\<open>d.get(k)\<close> is the entry or \<^verbatim>\<open>None\<close>; on a value that is not a dictionary the
  attribute \<^verbatim>\<open>get\<close> does not exist.
\<close>

definition dict_get :: "(string \<times> pyval) list \<Rightarrow> string \<Rightarrow> pyval" where
  "dict_get kvs k = (case map_of kvs k of None \<Rightarrow> PNone | Some v \<Rightarrow> v)"

fun py_get :: "pyval \<Rightarrow> string \<Rightarrow> py_exn + pyval" where
  "py_get (PDict kvs) k = Inr (dict_get kvs k)"
| "py_get v k = Inl AttributeError"

text \<open>\<^verbatim>\<open>v[k]\<close> with a string \<open>k\<close>: the entry of a dictionary, a \<^verbatim>\<open>KeyError\<close> without one.\<close>

fun py_getitem_str :: "pyval \<Rightarrow> string \<Rightarrow> py_exn + pyval" where
  "py_getitem_str (PDict kvs) k = (case map_of kvs k of None \<Rightarrow> Inl KeyError | Some v \<Rightarrow> Inr v)"
| "py_getitem_str v k = Inl TypeError"

text \<open>
  \<^verbatim>\<open>v[0]\<close>: the first element of a list, the first character of a string, an
  \<^verbatim>\<open>IndexError\<close> when they are empty; a dictionary decoded from JSON has no key 0.
\<close>

fun py_getitem_0 :: "pyval \<Rightarrow> py_exn + pyval" where
  "py_getitem_0 (PList []) = Inl IndexError"
| "py_getitem_0 (PList (x # xs)) = Inr x"
| "py_getitem_0 (PStr []) = Inl IndexError"
| "py_getitem_0 (PStr (c # cs)) = Inr (PStr [c])"
| "py_getitem_0 (PDict kvs) = Inl KeyError"
| "py_getitem_0 v = Inl TypeError"

section \<open>The HTTP exchange\<close>

text \<open>
  \<^verbatim>\<open>requests.get\<close> is the world's answer to a request: it raises a
  \<^verbatim>\<open>RequestException\<close> (no connection, a timeout, too many redirects) or returns a
  response, of which the program reads the status code and calls \<^verbatim>\<open>json()\<close>. The world is a
  function from the request to that answer; an exchange that never ends is not modelled.

  \<^verbatim>\<open>response.json()\<close> is library code, and what it does on the body of a response is part of
  the world's answer: \<open>Json v\<close> when it returns the value \<open>v\<close>, \<open>JsonRaises e\<close> when it
  raises \<open>e\<close>. It raises \<open>JSONDecodeError\<close> on a body that is not JSON, and it also raises
  a plain \<^verbatim>\<open>ValueError\<close> on a JSON integer with more digits than the interpreter's limit and a
  \<^verbatim>\<open>RecursionError\<close> on a body nested too deep.
\<close>

datatype http_body = Json pyval | JsonRaises py_exn

datatype http_outcome = TransportError | Response nat http_body

type_synonym http_env = "http_request \<Rightarrow> http_outcome"

text \<open>
  The first three statements of the \<^verbatim>\<open>try\<close> block of \<^verbatim>\<open>get_nfe_info\<close>:
  \<^verbatim>\<open>requests.get\<close>, then \<^verbatim>\<open>raise_for_status()\<close>, which raises an \<^verbatim>\<open>HTTPError\<close> for the
  status codes 400 to 599 and for no other, then \<^verbatim>\<open>json()\<close>.
\<close>

definition fetch_json :: "http_outcome \<Rightarrow> py_exn + pyval" where
  "fetch_json outcome =
     (case outcome of
        TransportError \<Rightarrow> Inl RequestException
      | Response status_code body \<Rightarrow>
          if 400 \<le> status_code \<and> status_code < 600 then Inl HTTPError
          else (case body of JsonRaises e \<Rightarrow> Inl e | Json response_data \<Rightarrow> Inr response_data))"

section \<open>\<^verbatim>\<open>BlingNFeClient\<close>\<close>

record BlingNFeClient =
  access_token :: string
  headers :: "(string \<times> string) list"

definition BlingNFeClient_init :: "string \<Rightarrow> BlingNFeClient" where
  "BlingNFeClient_init token =
     \<lparr>access_token = token,
      headers = [(''Accept'', ''application/json''), (''Authorization'', ''Bearer '' @ token)]\<rparr>"

text \<open>The request \<^verbatim>\<open>get_nfe_info\<close> builds: the URL, the headers of the client, the parameters.\<close>

definition nfe_request :: "BlingNFeClient \<Rightarrow> NFeTipo \<Rightarrow> http_request" where
  "nfe_request self tipo =
     \<lparr>req_method = ''GET'',
      req_url = API_BASE_URL @ ''/nfe'',
      req_headers = headers self,
      req_params = [(''pagina'', 1), (''limite'', 1), (''tipo'', NFeTipo_value tipo)]\<rparr>"

text \<open>
  The condition \<^verbatim>\<open>response_data.get('data') and response_data['data']\<close> and the
  expression \<^verbatim>\<open>response_data['data'][0].get('numero')\<close>.
\<close>

definition has_data :: "pyval \<Rightarrow> py_exn + bool" where
  "has_data response_data =
     (case py_get response_data ''data'' of
        Inl e \<Rightarrow> Inl e
      | Inr d \<Rightarrow>
          if truthy d
          then (case py_getitem_str response_data ''data'' of
                  Inl e \<Rightarrow> Inl e
                | Inr d' \<Rightarrow> Inr (truthy d'))
          else Inr False)"

definition first_numero :: "pyval \<Rightarrow> py_exn + pyval" where
  "first_numero response_data =
     (case py_getitem_str response_data ''data'' of
        Inl e \<Rightarrow> Inl e
      | Inr d \<Rightarrow>
          (case py_getitem_0 d of
             Inl e \<Rightarrow> Inl e
           | Inr record \<Rightarrow> py_get record ''numero''))"

text \<open>The \<^verbatim>\<open>try\<close> block of \<^verbatim>\<open>get_nfe_info\<close>, then the function with its two handlers.\<close>

definition get_nfe_info_try ::
  "http_env \<Rightarrow> BlingNFeClient \<Rightarrow> NFeTipo \<Rightarrow> event list \<times> (py_exn + pyval)" where
  "get_nfe_info_try http self tipo =
     (let request = nfe_request self tipo in
      case fetch_json (http request) of
        Inl e \<Rightarrow> ([HttpGet request], Inl e)
      | Inr response_data \<Rightarrow>
          (case has_data response_data of
             Inl e \<Rightarrow> ([HttpGet request], Inl e)
           | Inr found \<Rightarrow>
               if found
               then (case first_numero response_data of
                       Inl e \<Rightarrow> ([HttpGet request], Inl e)
                     | Inr numero \<Rightarrow> ([HttpGet request, Print (MsgNumero tipo numero)], Inr numero))
               else ([HttpGet request, Print (MsgNotFound tipo)], Inr PNone)))"

definition get_nfe_info ::
  "http_env \<Rightarrow> BlingNFeClient \<Rightarrow> NFeTipo \<Rightarrow> event list \<times> (py_exn + pyval)" where
  "get_nfe_info http self tipo =
     (case get_nfe_info_try http self tipo of
        (evs, Inr v) \<Rightarrow> (evs, Inr v)
      | (evs, Inl e) \<Rightarrow>
          if is_RequestException e then (evs @ [Print (MsgRequestError tipo e)], Inr PNone)
          else if is_JSONDecodeError e then (evs @ [Print (MsgParseError tipo e)], Inr PNone)
          else (evs, Inl e))"

section \<open>The thread pool and \<^verbatim>\<open>get_multiple_nfe_info\<close>\<close>

text \<open>
  \<^verbatim>\<open>executor.submit\<close> hands a call to a worker thread and returns a future; the pool has
  \<^verbatim>\<open>MAX_WORKERS\<close> = 2 workers, so the two calls run side by side. A task is the future it
  will complete, the events its call has still to cause and the outcome of the call.
  The pool holds the completed futures and the log of the events so far. A schedule, a
  list of booleans, says which of the two tasks moves next (the first one on
  \<open>True\<close>, and when the schedule has run out): a move is the next event of the task or,
  after its last event, the completion of its future.
\<close>

type_synonym future = nat

datatype task = Task future "event list" "py_exn + pyval"

record pool =
  futures :: "future \<Rightarrow> (py_exn + pyval) option"
  log :: "event list"

fun task_weight :: "task option \<Rightarrow> nat" where
  "task_weight None = 0"
| "task_weight (Some (Task f es r)) = Suc (length es)"

fun advance :: "task \<Rightarrow> pool \<Rightarrow> task option \<times> pool" where
  "advance (Task f [] r) p = (None, p\<lparr>futures := (futures p)(f \<mapsto> r)\<rparr>)"
| "advance (Task f (e # es) r) p = (Some (Task f es r), p\<lparr>log := log p @ [e]\<rparr>)"

function run_pool :: "bool list \<Rightarrow> task option \<Rightarrow> task option \<Rightarrow> pool \<Rightarrow> pool" where
  "run_pool sched None None p = p"
| "run_pool sched (Some t) None p = run_pool sched (fst (advance t p)) None (snd (advance t p))"
| "run_pool sched None (Some u) p = run_pool sched None (fst (advance u p)) (snd (advance u p))"
| "run_pool [] (Some t) (Some u) p = run_pool [] (fst (advance t p)) (Some u) (snd (advance t p))"
| "run_pool (b # sched) (Some t) (Some u) p =
     (if b then run_pool sched (fst (advance t p)) (Some u) (snd (advance t p))
      else run_pool sched (Some t) (fst (advance u p)) (snd (advance u p)))"
  by pat_completeness auto
termination
proof -
  have w: "task_weight (fst (advance t p)) < task_weight (Some t)" for t p
    by (induction t p rule: advance.induct) simp_all
  show ?thesis
    by (relation "measure (\<lambda>(sched, t, u, p). task_weight t + task_weight u)")
       (simp_all add: w split_beta)
qed

text \<open>
  \<^verbatim>\<open>future.result()\<close> waits for the future and returns the outcome of its call, raising
  what the call raised. \<open>None\<close> stands for a wait that never ends.
\<close>

definition get_multiple_nfe_info ::
  "bool list \<Rightarrow> http_env \<Rightarrow> BlingNFeClient \<Rightarrow> (event list \<times> (py_exn + pyval \<times> pyval)) option" where
  "get_multiple_nfe_info sched http self =
     (let future_entrada = 0;
          future_saida = 1;
          entrada = get_nfe_info http self ENTRADA;
          saida = get_nfe_info http self SAIDA;
          p = run_pool sched (Some (Task future_entrada (fst entrada) (snd entrada)))
                (Some (Task future_saida (fst saida) (snd saida)))
                \<lparr>futures = Map.empty, log = []\<rparr>
      in case futures p future_entrada of
           None \<Rightarrow> None
         | Some (Inl e) \<Rightarrow> Some (log p, Inl e)
         | Some (Inr numero_entrada) \<Rightarrow>
             (case futures p future_saida of
                None \<Rightarrow> None
              | Some (Inl e) \<Rightarrow> Some (log p, Inl e)
              | Some (Inr numero_saida) \<Rightarrow> Some (log p, Inr (numero_entrada, numero_saida))))"

section \<open>\<^verbatim>\<open>main\<close>\<close>

text \<open>
  The module \<^verbatim>\<open>auth\<close> with the class \<^verbatim>\<open>BlingAuth\<close> is imported by the program and is not
  part of it; \<^verbatim>\<open>main\<close> takes its two methods as they answer in one run. The
  authorization code is a string or \<^verbatim>\<open>None\<close>; the token structure is a dictionary of
  strings or \<^verbatim>\<open>None\<close>; either method may raise.
\<close>

record BlingAuth =
  get_authorization_code :: "py_exn + string option"
  get_access_token :: "string \<Rightarrow> py_exn + (string \<times> string) list option"

text \<open>Truth value of a string or \<^verbatim>\<open>None\<close>.\<close>

fun truthy_str :: "string option \<Rightarrow> bool" where
  "truthy_str None = False"
| "truthy_str (Some s) = (s \<noteq> [])"

text \<open>The \<^verbatim>\<open>try\<close> block of \<^verbatim>\<open>main\<close>, from the token on and as a whole.\<close>

definition main_fetch ::
  "bool list \<Rightarrow> digit_limit \<Rightarrow> http_env \<Rightarrow> string \<Rightarrow> (event list \<times> (py_exn + unit)) option" where
  "main_fetch sched maxd http token =
     (let client = BlingNFeClient_init token in
      case get_multiple_nfe_info sched http client of
        None \<Rightarrow> None
      | Some (evs, Inl e) \<Rightarrow> Some (evs, Inl e)
      | Some (evs, Inr (numero_entrada, numero_saida)) \<Rightarrow>
          (case compare_nfe_numbers maxd numero_entrada numero_saida of
             (evs', Inl e) \<Rightarrow> Some (evs @ evs', Inl e)
           | (evs', Inr max_numero) \<Rightarrow>
               if truthy max_numero
               then Some (evs @ evs' @ [Print (MsgMax max_numero)], Inr ())
               else Some (evs @ evs' @ [Print MsgUndetermined], Inr ())))"

definition main_try ::
  "bool list \<Rightarrow> digit_limit \<Rightarrow> http_env \<Rightarrow> BlingAuth \<Rightarrow> (event list \<times> (py_exn + unit)) option" where
  "main_try sched maxd http auth =
     (case get_authorization_code auth of
        Inl e \<Rightarrow> Some ([Print MsgGettingCode], Inl e)
      | Inr auth_code \<Rightarrow>
          if \<not> truthy_str auth_code then Some ([Print MsgGettingCode], Inl ValueError)
          else
            (case get_access_token auth (the auth_code) of
               Inl e \<Rightarrow> Some ([Print MsgGettingCode, Print MsgGettingToken], Inl e)
             | Inr None \<Rightarrow> Some ([Print MsgGettingCode, Print MsgGettingToken], Inl AttributeError)
             | Inr (Some token_info) \<Rightarrow>
                 if \<not> truthy_str (map_of token_info ''access_token'')
                 then Some ([Print MsgGettingCode, Print MsgGettingToken], Inl ValueError)
                 else
                   (case main_fetch sched maxd http (the (map_of token_info ''access_token'')) of
                      None \<Rightarrow> None
                    | Some (evs, r) \<Rightarrow>
                        Some ([Print MsgGettingCode, Print MsgGettingToken] @ evs, r))))"

text \<open>
  \<^verbatim>\<open>main\<close>: the handler \<^verbatim>\<open>except Exception\<close> catches every exception of the model and
  prints it. The result is the list of the events of the run.
\<close>

definition main :: "bool list \<Rightarrow> digit_limit \<Rightarrow> http_env \<Rightarrow> BlingAuth \<Rightarrow> event list option" where
  "main sched maxd http auth =
     (case main_try sched maxd http auth of
        None \<Rightarrow> None
      | Some (evs, Inr u) \<Rightarrow> Some evs
      | Some (evs, Inl e) \<Rightarrow> Some (evs @ [Print (MsgProgramError e)]))"

text \<open>The requests among the events of a run.\<close>

fun http_requests :: "event list \<Rightarrow> http_request list" where
  "http_requests [] = []"
| "http_requests (HttpGet r # evs) = r # http_requests evs"
| "http_requests (Print m # evs) = http_requests evs"

section \<open>Facts about parsing and formatting\<close>

lemma digit_val_less: "is_digit c \<Longrightarrow> digit_val c < 10"
  by (auto simp: is_digit_def digit_val_def)

lemma digits_value_snoc: "digits_value (ds @ [c]) = 10 * digits_value ds + digit_val c"
  by (simp add: digits_value_def)

lemma digits_value_less: "list_all is_digit ds \<Longrightarrow> digits_value ds < 10 ^ length ds"
proof (induction ds rule: rev_induct)
  case Nil
  then show ?case by (simp add: digits_value_def)
next
  case (snoc c ds)
  then have "digits_value ds < 10 ^ length ds" and "digit_val c < 10"
    by (simp_all add: digit_val_less)
  then show ?case
    by (simp add: digits_value_snoc)
qed

lemma length_nat_digits_le: "n < 10 ^ k \<Longrightarrow> 0 < k \<Longrightarrow> length (nat_digits n) \<le> k"
proof (induction n arbitrary: k rule: nat_digits.induct)
  case (1 n)
  show ?case
  proof (cases "n < 10")
    case True
    with "1.prems" show ?thesis by (simp add: nat_digits.simps)
  next
    case False
    obtain j where k: "k = Suc j" using "1.prems" by (cases k) auto
    have j: "0 < j" using False "1.prems" k by (cases j) auto
    have "n div 10 < 10 ^ j" using "1.prems" k by (simp add: less_mult_imp_div_less mult.commute)
    with "1.IH" [OF False this j] False k show ?thesis
      by (simp add: nat_digits.simps [of n])
  qed
qed

text \<open>
  \<open>nat_digits\<close> is the decimal representation: its characters are digits and their value
  is the number.
\<close>

lemma digit_val_digit_char: "d < 10 \<Longrightarrow> digit_val (digit_char d) = d \<and> is_digit (digit_char d)"
proof -
  assume "d < 10"
  then have "d \<in> {0, 1, 2, 3, 4, 5, 6, 7, 8, 9}" by auto
  then show ?thesis
    by (elim insertE emptyE) (simp_all add: digit_val_def digit_char_def is_digit_def)
qed

lemma nat_digits_value: "digits_value (nat_digits n) = n \<and> list_all is_digit (nat_digits n)"
proof (induction n rule: nat_digits.induct)
  case (1 n)
  show ?case
  proof (cases "n < 10")
    case True
    then show ?thesis
      using digit_val_digit_char [of n] by (simp add: nat_digits.simps [of n] digits_value_def)
  next
    case False
    have "n mod 10 < 10" by simp
    from digit_val_digit_char [OF this] "1.IH" [OF False] False show ?thesis
      by (simp add: nat_digits.simps [of n] digits_value_snoc)
  qed
qed

lemma py_int_str_empty: "py_int_str maxd [] = Inl ValueError"
  by (simp add: py_int_str_def skip_sign_def valid_digit_body_def)

lemma py_int_str_Inl: "py_int_str maxd s = Inl e \<Longrightarrow> e = ValueError"
  by (simp add: py_int_str_def Let_def split: if_splits)

lemma filter_digit_takeWhile_nonempty:
  assumes "valid_digit_body body" "body = takeWhile is_digit_or_underscore s"
  shows "filter is_digit body \<noteq> []"
proof -
  obtain c r where b: "body = c # r" using assms(1) by (cases body) (auto simp: valid_digit_body_def)
  have "c \<in> set (takeWhile is_digit_or_underscore s)" using b assms(2) by (metis list.set_intros(1))
  then have "is_digit_or_underscore c" by (rule set_takeWhileD [THEN conjunct2])
  with assms(1) b have "is_digit c" by (simp add: is_digit_or_underscore_def valid_digit_body_def)
  with b show ?thesis by simp
qed

lemma py_int_str_Inr:
  assumes "py_int_str maxd s = Inr x"
  obtains ds where "ds \<noteq> []" "list_all is_digit ds" "\<not> exceeds_max_str_digits maxd (length ds)"
    "\<bar>x\<bar> = int (digits_value ds)"
proof -
  define body where "body = takeWhile is_digit_or_underscore (skip_sign (dropWhile py_isspace s))"
  define ds where "ds = filter is_digit body"
  define sg where "sg = (if is_negative (dropWhile py_isspace s) then - 1 else 1 :: int)"
  from assms have ok: "valid_digit_body body" "\<not> exceeds_max_str_digits maxd (length ds)"
    and x: "x = sg * int (digits_value ds)"
    by (simp_all add: py_int_str_def Let_def body_def ds_def sg_def split: if_splits)
  have "\<bar>sg\<bar> = 1" by (simp add: sg_def)
  then have ax: "\<bar>x\<bar> = int (digits_value ds)" using x by (simp add: abs_mult)
  have ne: "ds \<noteq> []" unfolding ds_def using ok(1) body_def by (rule filter_digit_takeWhile_nonempty)
  have "list_all is_digit ds" by (simp add: ds_def list_all_iff)
  from that [OF ne this ok(2) ax] show thesis .
qed

lemma py_int_str_digits:
  assumes "py_int_str maxd s = Inr x"
  shows "\<not> exceeds_max_str_digits maxd (length (nat_digits (nat \<bar>x\<bar>)))"
proof -
  from assms obtain ds where ds: "ds \<noteq> []" "list_all is_digit ds"
    "\<not> exceeds_max_str_digits maxd (length ds)" "\<bar>x\<bar> = int (digits_value ds)"
    by (rule py_int_str_Inr)
  from ds(2) have "digits_value ds < 10 ^ length ds" by (rule digits_value_less)
  then have "length (nat_digits (digits_value ds)) \<le> length ds"
    using ds(1) by (intro length_nat_digits_le) auto
  moreover have "nat \<bar>x\<bar> = digits_value ds" using ds(4) by simp
  ultimately have "length (nat_digits (nat \<bar>x\<bar>)) \<le> length ds" by simp
  with ds(3) show ?thesis unfolding exceeds_max_str_digits_def by linarith
qed

section \<open>Properties of \<^verbatim>\<open>compare_nfe_numbers\<close>\<close>

lemma max_str_digits_valid: "max_str_digits maxd = 0 \<or> 640 \<le> max_str_digits maxd"
  by (cases maxd) simp_all

lemma py_format_0d_ok:
  assumes "\<not> exceeds_max_str_digits maxd (length (nat_digits (nat \<bar>n\<bar>)))"
  shows "py_format_0d maxd w n =
     Inr (if 0 \<le> n then replicate (w - length (nat_digits (nat n))) (CHR ''0'') @ nat_digits (nat n)
          else CHR ''-'' # replicate (w - 1 - length (nat_digits (nat (- n)))) (CHR ''0'')
                 @ nat_digits (nat (- n)))"
proof (cases "0 \<le> n")
  case True
  with assms show ?thesis
    by (auto simp: py_format_0d_def exceeds_max_str_digits_def Let_def)
next
  case False
  then have n: "\<bar>n\<bar> = - n" by simp
  from max_str_digits_valid [of maxd] assms False show ?thesis
    unfolding py_format_0d_def exceeds_max_str_digits_def str_digits_check_threshold_def n Let_def
    by auto
qed

lemma compare_parsed:
  assumes a: "py_int_str maxd a = Inr x" and b: "py_int_str maxd b = Inr y"
  shows "compare_nfe_numbers maxd (PStr a) (PStr b) =
     ([], Inr (PStr (if 0 \<le> max x y
          then replicate (NFE_DIGITS - length (nat_digits (nat (max x y)))) (CHR ''0'')
                 @ nat_digits (nat (max x y))
          else CHR ''-'' # replicate (NFE_DIGITS - 1 - length (nat_digits (nat (- max x y)))) (CHR ''0'')
                 @ nat_digits (nat (- max x y)))))"
proof -
  have ne: "a \<noteq> []" "b \<noteq> []" using a b by (auto simp: py_int_str_empty)
  have "\<not> exceeds_max_str_digits maxd (length (nat_digits (nat \<bar>max x y\<bar>)))"
    using py_int_str_digits [OF a] py_int_str_digits [OF b] by (cases "x \<le> y") (simp_all add: max_def)
  then have "py_format_0d maxd NFE_DIGITS (max x y) = Inr (if 0 \<le> max x y
          then replicate (NFE_DIGITS - length (nat_digits (nat (max x y)))) (CHR ''0'')
                 @ nat_digits (nat (max x y))
          else CHR ''-'' # replicate (NFE_DIGITS - 1 - length (nat_digits (nat (- max x y)))) (CHR ''0'')
                 @ nat_digits (nat (- max x y)))"
    by (rule py_format_0d_ok)
  then have "compare_try maxd (PStr a) (PStr b) = Inr (PStr (if 0 \<le> max x y
          then replicate (NFE_DIGITS - length (nat_digits (nat (max x y)))) (CHR ''0'')
                 @ nat_digits (nat (max x y))
          else CHR ''-'' # replicate (NFE_DIGITS - 1 - length (nat_digits (nat (- max x y)))) (CHR ''0'')
                 @ nat_digits (nat (- max x y))))"
    using a b by (simp add: compare_try_def)
  then show ?thesis using ne by (simp add: compare_nfe_numbers_def py_and_def)
qed

lemma compare_unparsed:
  assumes "py_int_str maxd a = Inl e \<or> py_int_str maxd b = Inl e'"
  shows "snd (compare_nfe_numbers maxd (PStr a) (PStr b)) = Inr PNone"
proof -
  have "compare_try maxd (PStr a) (PStr b) = Inl ValueError"
  proof (cases "py_int_str maxd a")
    case (Inl e1)
    then show ?thesis using py_int_str_Inl [OF Inl] by (simp add: compare_try_def)
  next
    case (Inr x)
    with assms obtain e2 where e2: "py_int_str maxd b = Inl e2" by auto
    then show ?thesis using Inr py_int_str_Inl [OF e2] by (simp add: compare_try_def)
  qed
  then show ?thesis by (simp add: compare_nfe_numbers_def is_ValueError_def)
qed

lemmas py_int_str_eval = py_int_str_def Let_def skip_sign_def is_negative_def valid_digit_body_def
  py_isspace_def is_digit_or_underscore_def is_digit_def exceeds_max_str_digits_def
  str_digits_check_threshold_def digits_value_def digit_val_def

lemma digit_char_nonzero: "0 < d \<Longrightarrow> d < 10 \<Longrightarrow> digit_char d \<noteq> CHR ''0''"
proof -
  assume "0 < d" "d < 10"
  then have "d \<in> {1, 2, 3, 4, 5, 6, 7, 8, 9}" by auto
  then show ?thesis by (elim insertE emptyE) (simp_all add: digit_char_def)
qed

lemma nat_digits_nonempty: "nat_digits n \<noteq> []"
  by (simp add: nat_digits.simps [of n])

lemma nat_digits_zero: "nat_digits 0 = ''0''"
  by (simp add: nat_digits.simps digit_char_def)

lemma nat_digits_hd: "0 < n \<Longrightarrow> hd (nat_digits n) \<noteq> CHR ''0''"
proof (induction n rule: nat_digits.induct)
  case (1 n)
  show ?case
  proof (cases "n < 10")
    case True
    with "1.prems" show ?thesis by (simp add: nat_digits.simps [of n] digit_char_nonzero)
  next
    case False
    then have "0 < n div 10" by simp
    with "1.IH" [OF False] have "hd (nat_digits (n div 10)) \<noteq> CHR ''0''" by simp
    with False show ?thesis by (simp add: nat_digits.simps [of n] nat_digits_nonempty)
  qed
qed

lemma nat_digits_decimal:
  "list_all is_digit (nat_digits n) \<and> digits_value (nat_digits n) = n
   \<and> (if n = 0 then nat_digits n = ''0'' else hd (nat_digits n) \<noteq> CHR ''0'')"
  using nat_digits_value [of n] nat_digits_zero nat_digits_hd [of n] by simp

lemma compare_parsed_abs:
  assumes a: "py_int_str maxd a = Inr x" and b: "py_int_str maxd b = Inr y"
  shows "compare_nfe_numbers maxd (PStr a) (PStr b) =
     ([], Inr (PStr (if 0 \<le> max x y
          then replicate (NFE_DIGITS - length (nat_digits (nat \<bar>max x y\<bar>))) (CHR ''0'')
                 @ nat_digits (nat \<bar>max x y\<bar>)
          else CHR ''-'' # replicate (NFE_DIGITS - 1 - length (nat_digits (nat \<bar>max x y\<bar>))) (CHR ''0'')
                 @ nat_digits (nat \<bar>max x y\<bar>))))"
proof (cases "0 \<le> max x y")
  case True
  then have "\<bar>max x y\<bar> = max x y" by simp
  with compare_parsed [OF a b] True show ?thesis by simp
next
  case False
  then have "\<bar>max x y\<bar> = - max x y" by simp
  with compare_parsed [OF a b] False show ?thesis by simp
qed

text \<open>
  C1. When both arguments are strings that \<^verbatim>\<open>int()\<close> parses, to \<open>x\<close> and \<open>y\<close>, the function
  prints nothing and returns the decimal string of the maximum \<open>m\<close> of \<open>x\<close> and \<open>y\<close>, filled
  with zeros on the left up to \<^verbatim>\<open>NFE_DIGITS\<close> = 6 characters (after the sign when the maximum
  is negative). The digits \<open>ds\<close> it returns are the decimal representation of the absolute
  value of \<open>m\<close>: they are decimal digits, their value is that number, and they have no
  leading zero. The comparison is numeric: for \<^verbatim>\<open>"5"\<close> and \<^verbatim>\<open>"10"\<close> the result is
  \<^verbatim>\<open>"000010"\<close>.
\<close>

theorem compare_nfe_numbers_numeric_max:
  assumes "py_int maxd (PStr a) = Inr x" and "py_int maxd (PStr b) = Inr y"
  shows "(let m = max x y; ds = nat_digits (nat \<bar>m\<bar>) in
            compare_nfe_numbers maxd (PStr a) (PStr b) =
              ([], Inr (PStr (if 0 \<le> m
                 then replicate (NFE_DIGITS - length ds) (CHR ''0'') @ ds
                 else CHR ''-'' # replicate (NFE_DIGITS - 1 - length ds) (CHR ''0'') @ ds)))
            \<and> list_all is_digit ds
            \<and> digits_value ds = nat \<bar>m\<bar>
            \<and> (if m = 0 then ds = ''0'' else hd ds \<noteq> CHR ''0''))
         \<and> NFE_DIGITS = 6
         \<and> compare_nfe_numbers maxd (PStr ''5'') (PStr ''10'') = ([], Inr (PStr ''000010''))"
proof -
  have a: "py_int_str maxd ''5'' = Inr 5" and b: "py_int_str maxd ''10'' = Inr 10"
    by (simp_all add: py_int_str_eval)
  have z: "replicate 4 (CHR ''0'') = ''0000''" by (simp add: eval_nat_numeral)
  have ex: "compare_nfe_numbers maxd (PStr ''5'') (PStr ''10'') = ([], Inr (PStr ''000010''))"
    using compare_parsed [OF a b]
    by (simp add: NFE_DIGITS_def nat_digits.simps digit_char_def z)
  have n: "NFE_DIGITS = 6" by (simp add: NFE_DIGITS_def)
  from assms have p: "py_int_str maxd a = Inr x" "py_int_str maxd b = Inr y" by simp_all
  have d: "list_all is_digit (nat_digits (nat \<bar>max x y\<bar>))
      \<and> digits_value (nat_digits (nat \<bar>max x y\<bar>)) = nat \<bar>max x y\<bar>
      \<and> (if max x y = 0 then nat_digits (nat \<bar>max x y\<bar>) = ''0''
          else hd (nat_digits (nat \<bar>max x y\<bar>)) \<noteq> CHR ''0'')"
    using nat_digits_decimal [of "nat \<bar>max x y\<bar>"]
    by (cases "max x y = 0") (simp_all add: nat_digits_zero)
  note main = conjI [OF compare_parsed_abs [OF p] d]
  show ?thesis
    unfolding Let_def by (rule conjI [OF main conjI [OF n ex]])
qed

theorem compare_nfe_numbers_numeric_max_witness:
  "py_int default_max_str_digits (PStr ''9'') = Inr 9
   \<and> py_int default_max_str_digits (PStr ''10'') = Inr 10
   \<and> compare_nfe_numbers default_max_str_digits (PStr ''9'') (PStr ''10'') = ([], Inr (PStr ''000010''))"
proof -
  have a: "py_int default_max_str_digits (PStr ''9'') = Inr 9"
    and b: "py_int default_max_str_digits (PStr ''10'') = Inr 10"
    by (simp_all add: py_int_str_eval)
  have z: "replicate 4 (CHR ''0'') = ''0000''" by (simp add: eval_nat_numeral)
  have "compare_nfe_numbers default_max_str_digits (PStr ''9'') (PStr ''10'') = ([], Inr (PStr ''000010''))"
    using compare_nfe_numbers_numeric_max [OF a b, THEN conjunct1]
    by (simp add: Let_def NFE_DIGITS_def nat_digits.simps digit_char_def z)
  with a b show ?thesis by (intro conjI)
qed

text \<open>
  C3. With \<^verbatim>\<open>None\<close> as either argument the function returns \<^verbatim>\<open>None\<close>, whatever the other
  argument is, and prints nothing.
\<close>

theorem compare_nfe_numbers_absent:
  "compare_nfe_numbers maxd PNone x = ([], Inr PNone)
   \<and> compare_nfe_numbers maxd x PNone = ([], Inr PNone)"
  by (simp add: compare_nfe_numbers_def py_and_def)

text \<open>
  C4. When both arguments are strings and \<^verbatim>\<open>int()\<close> fails on at least one of them, the
  function returns \<^verbatim>\<open>None\<close> and raises nothing; it prints the error unless one of the
  strings is empty. For \<^verbatim>\<open>"abc"\<close> and \<^verbatim>\<open>"10"\<close> the result is \<^verbatim>\<open>None\<close>.
\<close>

theorem compare_nfe_numbers_unparseable:
  assumes "(\<forall>x. py_int maxd (PStr a) \<noteq> Inr x) \<or> (\<forall>y. py_int maxd (PStr b) \<noteq> Inr y)"
  shows "compare_nfe_numbers maxd (PStr a) (PStr b) =
           (if a = [] \<or> b = [] then [] else [Print (MsgCompareError ValueError)], Inr PNone)
         \<and> snd (compare_nfe_numbers maxd (PStr ''abc'') (PStr ''10'')) = Inr PNone"
proof -
  have tr: "compare_try maxd (PStr a) (PStr b) = Inl ValueError"
  proof (cases "py_int_str maxd a")
    case (Inl e)
    then show ?thesis using py_int_str_Inl [OF Inl] by (simp add: compare_try_def)
  next
    case (Inr x)
    with assms obtain e where e: "py_int_str maxd b = Inl e" by (cases "py_int_str maxd b") auto
    then show ?thesis using Inr py_int_str_Inl [OF e] by (simp add: compare_try_def)
  qed
  have "py_int_str maxd ''abc'' = Inl ValueError" by (simp add: py_int_str_eval)
  then have "snd (compare_nfe_numbers maxd (PStr ''abc'') (PStr ''10'')) = Inr PNone"
    using compare_unparsed [of maxd "''abc''" ValueError "''10''"] by simp
  then show ?thesis using tr
    by (simp add: compare_nfe_numbers_def py_and_def is_ValueError_def)
qed

theorem compare_nfe_numbers_unparseable_witness:
  "py_int default_max_str_digits (PStr ''12x'') = Inl ValueError
   \<and> compare_nfe_numbers default_max_str_digits (PStr ''12x'') (PStr ''10'')
       = ([Print (MsgCompareError ValueError)], Inr PNone)"
proof -
  have a: "py_int default_max_str_digits (PStr ''12x'') = Inl ValueError"
    by (simp add: py_int_str_eval)
  then have "(\<forall>x. py_int default_max_str_digits (PStr ''12x'') \<noteq> Inr x)
     \<or> (\<forall>y. py_int default_max_str_digits (PStr ''10'') \<noteq> Inr y)" by simp
  from compare_nfe_numbers_unparseable [OF this] a show ?thesis by simp
qed

lemma zero_filled_wide:
  "NFE_DIGITS < length (py_str_int m) \<Longrightarrow>
    (if 0 \<le> m
     then replicate (NFE_DIGITS - length (nat_digits (nat m))) (CHR ''0'') @ nat_digits (nat m)
     else CHR ''-'' # replicate (NFE_DIGITS - 1 - length (nat_digits (nat (- m)))) (CHR ''0'')
            @ nat_digits (nat (- m))) = py_str_int m"
  by (cases "0 \<le> m") (simp_all add: py_str_int_def)

lemma py_str_int_sign: "py_str_int m = (if m < 0 then ''-'' else []) @ nat_digits (nat \<bar>m\<bar>)"
  by (simp add: py_str_int_def)

text \<open>
  C5. When both arguments are strings that \<^verbatim>\<open>int()\<close> parses and the decimal representation
  of the maximum \<open>m\<close> (\<^verbatim>\<open>str\<close> of it) is longer than \<^verbatim>\<open>NFE_DIGITS\<close> = 6 characters, the
  function returns that representation as it is, neither padded nor cut: the minus sign
  of a negative \<open>m\<close>, then the decimal digits of its absolute value, which are digits, have
  that value and have no leading zero.
\<close>

theorem compare_nfe_numbers_wide:
  assumes "py_int maxd (PStr a) = Inr x" and "py_int maxd (PStr b) = Inr y"
    and "NFE_DIGITS < length (py_str_int (max x y))"
  shows "(let m = max x y; ds = nat_digits (nat \<bar>m\<bar>) in
            compare_nfe_numbers maxd (PStr a) (PStr b) = ([], Inr (PStr (py_str_int m)))
            \<and> py_str_int m = (if m < 0 then ''-'' else []) @ ds
            \<and> list_all is_digit ds
            \<and> digits_value ds = nat \<bar>m\<bar>
            \<and> (if m = 0 then ds = ''0'' else hd ds \<noteq> CHR ''0''))
         \<and> NFE_DIGITS = 6"
proof -
  from assms(1,2) have "py_int_str maxd a = Inr x" "py_int_str maxd b = Inr y" by simp_all
  then have "compare_nfe_numbers maxd (PStr a) (PStr b) =
     ([], Inr (PStr (if 0 \<le> max x y
          then replicate (NFE_DIGITS - length (nat_digits (nat (max x y)))) (CHR ''0'')
                 @ nat_digits (nat (max x y))
          else CHR ''-'' # replicate (NFE_DIGITS - 1 - length (nat_digits (nat (- max x y)))) (CHR ''0'')
                 @ nat_digits (nat (- max x y)))))"
    by (rule compare_parsed)
  then have c: "compare_nfe_numbers maxd (PStr a) (PStr b) = ([], Inr (PStr (py_str_int (max x y))))"
    by (simp only: zero_filled_wide [OF assms(3)])
  have d: "list_all is_digit (nat_digits (nat \<bar>max x y\<bar>))
      \<and> digits_value (nat_digits (nat \<bar>max x y\<bar>)) = nat \<bar>max x y\<bar>
      \<and> (if max x y = 0 then nat_digits (nat \<bar>max x y\<bar>) = ''0''
          else hd (nat_digits (nat \<bar>max x y\<bar>)) \<noteq> CHR ''0'')"
    using nat_digits_decimal [of "nat \<bar>max x y\<bar>"]
    by (cases "max x y = 0") (simp_all add: nat_digits_zero)
  have n: "NFE_DIGITS = 6" by (simp add: NFE_DIGITS_def)
  note main = conjI [OF c conjI [OF py_str_int_sign [of "max x y"] d]]
  show ?thesis unfolding Let_def by (rule conjI [OF main n])
qed

theorem compare_nfe_numbers_wide_witness:
  "py_int default_max_str_digits (PStr ''1234567'') = Inr 1234567
   \<and> py_int default_max_str_digits (PStr ''10'') = Inr 10
   \<and> NFE_DIGITS < length (py_str_int (max 1234567 10))
   \<and> compare_nfe_numbers default_max_str_digits (PStr ''1234567'') (PStr ''10'')
       = ([], Inr (PStr ''1234567''))"
proof -
  have a: "py_int default_max_str_digits (PStr ''1234567'') = Inr 1234567"
    by (simp add: py_int_str_eval)
  have b: "py_int default_max_str_digits (PStr ''10'') = Inr 10"
    by (simp add: py_int_str_eval)
  have s: "py_str_int (max 1234567 10) = ''1234567''"
    by (simp add: py_str_int_def nat_digits.simps digit_char_def)
  have l: "NFE_DIGITS < length (py_str_int (max 1234567 10))"
    unfolding s by (simp add: NFE_DIGITS_def)
  from compare_nfe_numbers_wide [OF a b l, THEN conjunct1] have
    "compare_nfe_numbers default_max_str_digits (PStr ''1234567'') (PStr ''10'')
       = ([], Inr (PStr ''1234567''))"
    unfolding Let_def s by (rule conjunct1)
  with a b l show ?thesis by (intro conjI)
qed

text \<open>
  C9. The empty string is a string, not \<^verbatim>\<open>None\<close>, and yet it is treated like \<^verbatim>\<open>None\<close>: the
  test is on the truth value of the arguments, so with \<^verbatim>\<open>""\<close> as either argument the
  function returns \<^verbatim>\<open>None\<close>, whatever the other argument is, and prints nothing.
\<close>

theorem compare_nfe_numbers_empty_string:
  "compare_nfe_numbers maxd (PStr '''') x = ([], Inr PNone)
   \<and> compare_nfe_numbers maxd x (PStr '''') = ([], Inr PNone)
   \<and> PStr '''' \<noteq> PNone"
  by (simp add: compare_nfe_numbers_def py_and_def)

lemma is_digit_not_underscore: "is_digit c \<Longrightarrow> c \<noteq> CHR ''_''"
  by (auto simp: is_digit_def)

lemma is_digit_not_sign: "is_digit c \<Longrightarrow> c \<noteq> CHR ''+'' \<and> c \<noteq> CHR ''-''"
  by (auto simp: is_digit_def)

lemma is_digit_not_space: "is_digit c \<Longrightarrow> \<not> py_isspace c"
  by (auto simp: is_digit_def py_isspace_def)

lemma py_isspace_not_body: "py_isspace c \<Longrightarrow> \<not> is_digit_or_underscore c"
  by (auto simp: is_digit_def py_isspace_def is_digit_or_underscore_def)

lemma sign_not_space: "\<not> py_isspace (CHR ''+'')" "\<not> py_isspace (CHR ''-'')"
  by (simp_all add: py_isspace_def)

lemma double_underscore_digits:
  "list_all is_digit xs \<Longrightarrow> double_underscore (xs @ ys) = double_underscore ys"
proof (induction xs)
  case Nil
  show ?case by simp
next
  case (Cons x xs)
  then have x: "x \<noteq> CHR ''_''" and IH: "double_underscore (xs @ ys) = double_underscore ys"
    by (simp_all add: is_digit_not_underscore)
  show ?case
  proof (cases "xs @ ys")
    case Nil
    then show ?thesis by simp
  next
    case (Cons z zs)
    then have "double_underscore (x # xs @ ys) = double_underscore (xs @ ys)"
      using x by simp
    with IH show ?thesis by simp
  qed
qed

lemma join_groups_facts:
  "gs \<noteq> [] \<Longrightarrow> list_all is_digit_group gs \<Longrightarrow>
     join_groups gs \<noteq> [] \<and> is_digit (hd (join_groups gs)) \<and> is_digit (last (join_groups gs))
     \<and> \<not> double_underscore (join_groups gs)
     \<and> list_all is_digit_or_underscore (join_groups gs)
     \<and> filter is_digit (join_groups gs) = concat gs"
proof (induction gs rule: join_groups.induct)
  case 1
  then show ?case by simp
next
  case (2 g)
  then have g: "g \<noteq> []" "list_all is_digit g" by (simp_all add: is_digit_group_def)
  then have "is_digit (hd g)" "is_digit (last g)"
    by (simp_all add: list_all_iff)
  moreover have "\<not> double_underscore g"
    using double_underscore_digits [OF g(2), of "[]"] by simp
  moreover have "list_all is_digit_or_underscore g"
    using g(2) by (simp add: list_all_iff is_digit_or_underscore_def)
  moreover have "filter is_digit g = g" using g(2) by (simp add: list_all_iff)
  ultimately show ?case using g(1) by simp
next
  case (3 g h gs)
  then have gg: "is_digit_group g" and rest: "list_all is_digit_group (h # gs)"
    by simp_all
  from gg have g: "g \<noteq> []" "list_all is_digit g" by (simp_all add: is_digit_group_def)
  define r where "r = join_groups (h # gs)"
  from "3.IH" rest have r: "r \<noteq> []" "is_digit (hd r)" "is_digit (last r)" "\<not> double_underscore r"
    "list_all is_digit_or_underscore r" "filter is_digit r = concat (h # gs)"
    by (simp_all add: r_def)
  have j: "join_groups (g # h # gs) = g @ CHR ''_'' # r" by (simp add: r_def)
  obtain c cs where rc: "r = c # cs" using r(1) by (cases r) auto
  with r(2) have c: "c \<noteq> CHR ''_''" by (simp add: is_digit_not_underscore)
  have "double_underscore (CHR ''_'' # r) = double_underscore r" using rc c by simp
  then have du: "\<not> double_underscore (g @ CHR ''_'' # r)"
    using double_underscore_digits [OF g(2), of "CHR ''_'' # r"] r(4) by simp
  have hd: "is_digit (hd (g @ CHR ''_'' # r))" using g by (simp add: list_all_iff)
  have la: "is_digit (last (g @ CHR ''_'' # r))" using r(1,3) by simp
  have al: "list_all is_digit_or_underscore (g @ CHR ''_'' # r)"
    using g(2) r(5) by (auto simp: list_all_iff is_digit_or_underscore_def)
  have "\<not> is_digit (CHR ''_'')" by (simp add: is_digit_def)
  moreover have "filter is_digit g = g" using g(2) by (simp add: list_all_iff)
  ultimately have fi: "filter is_digit (g @ CHR ''_'' # r) = concat (g # h # gs)"
    using r(6) by simp
  show ?case unfolding j using du hd la al fi by simp
qed

lemma dropWhile_all: "list_all P xs \<Longrightarrow> dropWhile P (xs @ ys) = dropWhile P ys"
  by (simp add: list_all_iff)

lemma takeWhile_all: "list_all P xs \<Longrightarrow> takeWhile P (xs @ ys) = xs @ takeWhile P ys"
  by (simp add: list_all_iff)

lemma spaces_no_body: "list_all py_isspace ws \<Longrightarrow> takeWhile is_digit_or_underscore ws = []
    \<and> dropWhile is_digit_or_underscore ws = ws \<and> dropWhile py_isspace ws = []"
  by (cases ws) (simp_all add: py_isspace_not_body list_all_iff)

lemma py_int_str_literal:
  assumes wf: "is_int_literal ws sign groups ws'"
    and lim: "\<not> exceeds_max_str_digits maxd (length (concat groups))"
  shows "py_int_str maxd (int_literal ws sign groups ws') = Inr (int_literal_value sign groups)"
proof -
  define body where "body = join_groups groups"
  from wf have ws: "list_all py_isspace ws" and ws': "list_all py_isspace ws'"
    and sg: "sign = [] \<or> sign = ''+'' \<or> sign = ''-''"
    and gs: "groups \<noteq> []" "list_all is_digit_group groups"
    by (auto simp: is_int_literal_def)
  from join_groups_facts [OF gs] have b: "body \<noteq> []" "is_digit (hd body)" "is_digit (last body)"
    "\<not> double_underscore body" "list_all is_digit_or_underscore body"
    "filter is_digit body = concat groups"
    by (simp_all add: body_def)
  obtain c cs where bc: "body = c # cs" using b(1) by (cases body) auto
  with b(2) have c: "is_digit c" by simp
  have s1: "dropWhile py_isspace (int_literal ws sign groups ws') = sign @ body @ ws'"
    using sg c bc dropWhile_all [OF ws, of "sign @ body @ ws'"]
    by (auto simp: int_literal_def body_def [symmetric] is_digit_not_space sign_not_space)
  have s2: "skip_sign (sign @ body @ ws') = body @ ws'"
    using sg c bc is_digit_not_sign [OF c] by (auto simp: skip_sign_def)
  have ng: "is_negative (sign @ body @ ws') = (sign = ''-'')"
    using sg c bc is_digit_not_sign [OF c] by (auto simp: is_negative_def)
  have tk: "takeWhile is_digit_or_underscore (body @ ws') = body"
    using takeWhile_all [OF b(5), of ws'] spaces_no_body [OF ws'] by simp
  have dr: "dropWhile is_digit_or_underscore (body @ ws') = ws'"
    using dropWhile_all [OF b(5), of ws'] spaces_no_body [OF ws'] by simp
  have sp: "dropWhile py_isspace ws' = []" using spaces_no_body [OF ws'] by simp
  have vb: "valid_digit_body body"
    using b by (simp add: valid_digit_body_def is_digit_not_underscore)
  show ?thesis
    unfolding py_int_str_def Let_def s1 s2 ng tk dr sp b(6)
    using vb lim by (simp add: int_literal_value_def)
qed

text \<open>
  C10. The function accepts whatever \<^verbatim>\<open>int()\<close> accepts, not only strings of digits: for
  two strings made of whitespace, an optional sign \<^verbatim>\<open>+\<close> or \<^verbatim>\<open>-\<close>, one or more groups of
  digits joined by single underscores, and whitespace (within the digit limit), it prints
  nothing and returns the formatted maximum of the two values, never \<^verbatim>\<open>None\<close>. When the
  maximum is negative the minus sign is counted in the six characters and the zeros
  follow it: for \<^verbatim>\<open>"-3"\<close> and \<^verbatim>\<open>"-7"\<close> the result is \<^verbatim>\<open>"-00003"\<close>.
\<close>

theorem compare_nfe_numbers_int_literals:
  assumes "is_int_literal wa sa ga wa'" and "\<not> exceeds_max_str_digits maxd (length (concat ga))"
    and "is_int_literal wb sb gb wb'" and "\<not> exceeds_max_str_digits maxd (length (concat gb))"
  shows "compare_nfe_numbers maxd (PStr (int_literal wa sa ga wa')) (PStr (int_literal wb sb gb wb')) =
           ([], Inr (PStr
              (if 0 \<le> max (int_literal_value sa ga) (int_literal_value sb gb)
               then replicate (NFE_DIGITS
                       - length (nat_digits (nat (max (int_literal_value sa ga) (int_literal_value sb gb)))))
                      (CHR ''0'')
                    @ nat_digits (nat (max (int_literal_value sa ga) (int_literal_value sb gb)))
               else CHR ''-'' # replicate (NFE_DIGITS - 1
                       - length (nat_digits (nat (- max (int_literal_value sa ga) (int_literal_value sb gb)))))
                      (CHR ''0'')
                    @ nat_digits (nat (- max (int_literal_value sa ga) (int_literal_value sb gb))))))
         \<and> compare_nfe_numbers maxd (PStr ''-3'') (PStr ''-7'') = ([], Inr (PStr ''-00003''))"
proof -
  have a: "py_int_str maxd (int_literal wa sa ga wa') = Inr (int_literal_value sa ga)"
    using assms(1,2) by (rule py_int_str_literal)
  have b: "py_int_str maxd (int_literal wb sb gb wb') = Inr (int_literal_value sb gb)"
    using assms(3,4) by (rule py_int_str_literal)
  have m3: "py_int_str maxd ''-3'' = Inr (- 3)" and m7: "py_int_str maxd ''-7'' = Inr (- 7)"
    by (simp_all add: py_int_str_eval)
  have z: "replicate 4 (CHR ''0'') = ''0000''" by (simp add: eval_nat_numeral)
  have "compare_nfe_numbers maxd (PStr ''-3'') (PStr ''-7'') = ([], Inr (PStr ''-00003''))"
    using compare_parsed [OF m3 m7]
    by (simp add: NFE_DIGITS_def nat_digits.simps digit_char_def z)
  with compare_parsed [OF a b] show ?thesis by (rule conjI)
qed

theorem compare_nfe_numbers_int_literals_witness:
  "is_int_literal '' '' ''+'' [''1'', ''000''] '' ''
   \<and> \<not> exceeds_max_str_digits default_max_str_digits (length (concat [''1'', ''000'']))
   \<and> is_int_literal [] ''-'' [''7''] []
   \<and> \<not> exceeds_max_str_digits default_max_str_digits (length (concat [''7'']))
   \<and> int_literal '' '' ''+'' [''1'', ''000''] '' '' = '' +1_000 ''
   \<and> int_literal [] ''-'' [''7''] [] = ''-7''
   \<and> compare_nfe_numbers default_max_str_digits (PStr '' +1_000 '') (PStr ''-7'')
       = ([], Inr (PStr ''001000''))"
proof -
  have a: "is_int_literal '' '' ''+'' [''1'', ''000''] '' ''"
    by (simp add: is_int_literal_def is_digit_group_def py_isspace_def is_digit_def)
  have la: "\<not> exceeds_max_str_digits default_max_str_digits (length (concat [''1'', ''000'']))"
    by (simp add: exceeds_max_str_digits_def str_digits_check_threshold_def)
  have b: "is_int_literal [] ''-'' [''7''] []"
    by (simp add: is_int_literal_def is_digit_group_def py_isspace_def is_digit_def)
  have lb: "\<not> exceeds_max_str_digits default_max_str_digits (length (concat [''7'']))"
    by (simp add: exceeds_max_str_digits_def str_digits_check_threshold_def)
  have sa: "int_literal '' '' ''+'' [''1'', ''000''] '' '' = '' +1_000 ''"
    and sb: "int_literal [] ''-'' [''7''] [] = ''-7''"
    by (simp_all add: int_literal_def)
  have va: "int_literal_value ''+'' [''1'', ''000''] = 1000"
    and vb: "int_literal_value ''-'' [''7''] = - 7"
    by (simp_all add: int_literal_value_def digits_value_def digit_val_def)
  have z: "replicate 2 (CHR ''0'') = ''00''" by (simp add: eval_nat_numeral)
  have "compare_nfe_numbers default_max_str_digits (PStr '' +1_000 '') (PStr ''-7'')
       = ([], Inr (PStr ''001000''))"
    using compare_nfe_numbers_int_literals [OF a la b lb, THEN conjunct1]
    unfolding sa sb va vb
    by (simp add: NFE_DIGITS_def nat_digits.simps digit_char_def z)
  with a la b lb sa sb show ?thesis by (intro conjI)
qed

section \<open>Properties of \<^verbatim>\<open>get_nfe_info\<close>\<close>

lemma http_requests_append: "http_requests (xs @ ys) = http_requests xs @ http_requests ys"
  by (induction xs rule: http_requests.induct) simp_all

lemma get_nfe_info_try_requests:
  "http_requests (fst (get_nfe_info_try http self tipo)) = [nfe_request self tipo]"
  by (simp add: get_nfe_info_try_def Let_def split: sum.splits)

lemma get_nfe_info_requests:
  "http_requests (fst (get_nfe_info http self tipo)) = [nfe_request self tipo]"
proof (cases "get_nfe_info_try http self tipo")
  case (Pair evs r)
  with get_nfe_info_try_requests [of http self tipo] have "http_requests evs = [nfe_request self tipo]"
    by simp
  with Pair show ?thesis
    by (cases r) (simp_all add: get_nfe_info_def http_requests_append)
qed

text \<open>
  C7. Whatever the world answers, a call of \<^verbatim>\<open>get_nfe_info\<close> issues exactly one request: a
  GET of the base URL followed by \<^verbatim>\<open>/nfe\<close>, with the headers \<^verbatim>\<open>Accept: application/json\<close>
  and \<^verbatim>\<open>Authorization: Bearer\<close> and the token, and the parameters \<^verbatim>\<open>pagina\<close> = 1,
  \<^verbatim>\<open>limite\<close> = 1 and \<^verbatim>\<open>tipo\<close> = 0 for \<^verbatim>\<open>ENTRADA\<close>, 1 for \<^verbatim>\<open>SAIDA\<close>.
\<close>

theorem get_nfe_info_one_request:
  "http_requests (fst (get_nfe_info http (BlingNFeClient_init token) tipo)) =
     [\<lparr>req_method = ''GET'',
       req_url = API_BASE_URL @ ''/nfe'',
       req_headers = [(''Accept'', ''application/json''), (''Authorization'', ''Bearer '' @ token)],
       req_params = [(''pagina'', 1), (''limite'', 1),
                     (''tipo'', case tipo of ENTRADA \<Rightarrow> 0 | SAIDA \<Rightarrow> 1)]\<rparr>]
   \<and> API_BASE_URL @ ''/nfe'' = ''https://api.bling.com.br/Api/v3/nfe''"
  by (cases tipo) (simp_all add: get_nfe_info_requests nfe_request_def BlingNFeClient_init_def
      API_BASE_URL_def)



lemma dict_get_truthy: "truthy (dict_get kvs k) \<Longrightarrow> map_of kvs k = Some (dict_get kvs k)"
  by (cases "map_of kvs k") (simp_all add: dict_get_def)

lemma get_nfe_info_numero:
  assumes "fetch_json (http (nfe_request self tipo)) = Inr (PDict kvs)"
    and "dict_get kvs ''data'' = PList (PDict rec # rest)"
  shows "snd (get_nfe_info http self tipo) = Inr (dict_get rec ''numero'')"
proof -
  have "truthy (dict_get kvs ''data'')" using assms(2) by simp
  then have m: "map_of kvs ''data'' = Some (PList (PDict rec # rest))"
    using dict_get_truthy [of kvs "''data''"] assms(2) by simp
  then have "has_data (PDict kvs) = Inr True"
    and "first_numero (PDict kvs) = Inr (dict_get rec ''numero'')"
    using assms(2) by (simp_all add: has_data_def first_numero_def)
  then show ?thesis using assms(1)
    by (simp add: get_nfe_info_def get_nfe_info_try_def Let_def)
qed











section \<open>Properties of \<^verbatim>\<open>get_multiple_nfe_info\<close>\<close>

lemma run_pool_left:
  "futures (run_pool sched (Some (Task f es r)) None p) = (futures p)(f \<mapsto> r)"
  by (induction es arbitrary: p) simp_all

lemma run_pool_right:
  "futures (run_pool sched None (Some (Task g es r)) p) = (futures p)(g \<mapsto> r)"
  by (induction es arbitrary: p) simp_all

lemma run_pool_both_Nil:
  "futures (run_pool [] (Some (Task f es r)) (Some (Task g es' r')) p) = (futures p)(f \<mapsto> r, g \<mapsto> r')"
  by (induction es arbitrary: p) (simp_all add: run_pool_right del: run_pool.simps(3))

lemma run_pool_both:
  "f \<noteq> g \<Longrightarrow>
   futures (run_pool sched (Some (Task f es r)) (Some (Task g es' r')) p)
     = (futures p)(f \<mapsto> r, g \<mapsto> r')"
proof (induction sched arbitrary: es es' p)
  case Nil
  show ?case by (rule run_pool_both_Nil)
next
  case (Cons b sched)
  show ?case
  proof (cases b)
    case True
    show ?thesis
    proof (cases es)
      case Nil
      with True show ?thesis by (auto simp: run_pool_right simp del: run_pool.simps(3))
    next
      case (Cons e es1)
      have "futures (run_pool sched (Some (Task f es1 r)) (Some (Task g es' r')) (p\<lparr>log := log p @ [e]\<rparr>))
              = (futures (p\<lparr>log := log p @ [e]\<rparr>))(f \<mapsto> r, g \<mapsto> r')"
        using Cons.prems by (rule Cons.IH)
      with True Cons show ?thesis by auto
    qed
  next
    case False
    show ?thesis
    proof (cases es')
      case Nil
      with False Cons.prems show ?thesis
        by (auto simp: run_pool_left fun_upd_twist simp del: run_pool.simps(2))
    next
      case (Cons e es1)
      have "futures (run_pool sched (Some (Task f es r)) (Some (Task g es1 r')) (p\<lparr>log := log p @ [e]\<rparr>))
              = (futures (p\<lparr>log := log p @ [e]\<rparr>))(f \<mapsto> r, g \<mapsto> r')"
        using Cons.prems by (rule Cons.IH)
      with False Cons show ?thesis by auto
    qed
  qed
qed


lemma get_multiple_nfe_info_result:
  "map_option snd (get_multiple_nfe_info sched http self) =
     Some (case snd (get_nfe_info http self ENTRADA) of
             Inl e \<Rightarrow> Inl e
           | Inr numero_entrada \<Rightarrow>
               (case snd (get_nfe_info http self SAIDA) of
                  Inl e \<Rightarrow> Inl e
                | Inr numero_saida \<Rightarrow> Inr (numero_entrada, numero_saida)))"
proof -
  have "(0::future) \<noteq> 1" by simp
  note f = run_pool_both [OF this, of sched "fst (get_nfe_info http self ENTRADA)"
      "snd (get_nfe_info http self ENTRADA)" "fst (get_nfe_info http self SAIDA)"
      "snd (get_nfe_info http self SAIDA)" "\<lparr>futures = Map.empty, log = []\<rparr>"]
  show ?thesis
    unfolding get_multiple_nfe_info_def Let_def f
    by (simp split: sum.splits)
qed

text \<open>
  C6, as the code has it. For every schedule of the two tasks \<^verbatim>\<open>get_multiple_nfe_info\<close> ends,
  and with the same outcome: the pair of the result of the \<^verbatim>\<open>ENTRADA\<close> call and the
  result of the \<^verbatim>\<open>SAIDA\<close> call, in this order, when both calls return (a number or
  \<^verbatim>\<open>None\<close>); the exception of the \<^verbatim>\<open>ENTRADA\<close> call when it raises; else the exception of the
  \<^verbatim>\<open>SAIDA\<close> call.
\<close>

theorem get_multiple_nfe_info_positional:
  "map_option snd (get_multiple_nfe_info sched http self) =
     Some (case snd (get_nfe_info http self ENTRADA) of
             Inl e \<Rightarrow> Inl e
           | Inr numero_entrada \<Rightarrow>
               (case snd (get_nfe_info http self SAIDA) of
                  Inl e \<Rightarrow> Inl e
                | Inr numero_saida \<Rightarrow> Inr (numero_entrada, numero_saida)))
   \<and> map_option snd (get_multiple_nfe_info sched http self)
       = map_option snd (get_multiple_nfe_info sched' http self)"
  by (simp only: get_multiple_nfe_info_result)

theorem get_multiple_nfe_info_raises_counterexample:
  "map_option snd
     (get_multiple_nfe_info [] (\<lambda>r. Response 200 (Json (PList []))) (BlingNFeClient_init ''token''))
     = Some (Inl AttributeError)"
  unfolding get_multiple_nfe_info_result
  by (simp add: get_nfe_info_def get_nfe_info_try_def Let_def fetch_json_def
      is_RequestException_def is_JSONDecodeError_def has_data_def)

section \<open>Properties of \<^verbatim>\<open>main\<close>\<close>

text \<open>
  C8. When the authorization code is \<^verbatim>\<open>None\<close> or empty, and when the token structure has no
  \<^verbatim>\<open>access_token\<close> (or an empty one), \<^verbatim>\<open>main\<close> raises a \<^verbatim>\<open>ValueError\<close> before it creates the
  client: the run prints its progress lines and the error and ends, and no request is
  among its events, whatever the world and the schedule are.
\<close>

theorem main_auth_failure:
  "((\<exists>auth_code. get_authorization_code auth = Inr auth_code \<and> \<not> truthy_str auth_code)
      \<longrightarrow> main sched maxd http auth
            = Some [Print MsgGettingCode, Print (MsgProgramError ValueError)]
          \<and> http_requests (the (main sched maxd http auth)) = [])
   \<and> ((\<exists>auth_code token_info.
          get_authorization_code auth = Inr (Some auth_code) \<and> auth_code \<noteq> []
          \<and> get_access_token auth auth_code = Inr (Some token_info)
          \<and> \<not> truthy_str (map_of token_info ''access_token''))
      \<longrightarrow> main sched maxd http auth
            = Some [Print MsgGettingCode, Print MsgGettingToken, Print (MsgProgramError ValueError)]
          \<and> http_requests (the (main sched maxd http auth)) = [])"
proof (intro conjI impI)
  assume "\<exists>auth_code. get_authorization_code auth = Inr auth_code \<and> \<not> truthy_str auth_code"
  then obtain auth_code where "get_authorization_code auth = Inr auth_code" "\<not> truthy_str auth_code"
    by blast
  then have "main_try sched maxd http auth = Some ([Print MsgGettingCode], Inl ValueError)"
    by (simp add: main_try_def)
  then have m: "main sched maxd http auth = Some [Print MsgGettingCode, Print (MsgProgramError ValueError)]"
    by (simp add: main_def)
  show "main sched maxd http auth = Some [Print MsgGettingCode, Print (MsgProgramError ValueError)]"
    by (rule m)
  show "http_requests (the (main sched maxd http auth)) = []"
    by (simp add: m)
next
  assume "\<exists>auth_code token_info.
          get_authorization_code auth = Inr (Some auth_code) \<and> auth_code \<noteq> []
          \<and> get_access_token auth auth_code = Inr (Some token_info)
          \<and> \<not> truthy_str (map_of token_info ''access_token'')"
  then obtain auth_code token_info where
    "get_authorization_code auth = Inr (Some auth_code)" "auth_code \<noteq> []"
    "get_access_token auth auth_code = Inr (Some token_info)"
    "\<not> truthy_str (map_of token_info ''access_token'')"
    by blast
  then have "main_try sched maxd http auth
      = Some ([Print MsgGettingCode, Print MsgGettingToken], Inl ValueError)"
    by (simp add: main_try_def)
  then have m: "main sched maxd http auth
      = Some [Print MsgGettingCode, Print MsgGettingToken, Print (MsgProgramError ValueError)]"
    by (simp add: main_def)
  show "main sched maxd http auth
      = Some [Print MsgGettingCode, Print MsgGettingToken, Print (MsgProgramError ValueError)]"
    by (rule m)
  show "http_requests (the (main sched maxd http auth)) = []"
    by (simp add: m)
qed

theorem main_auth_failure_witness:
  "main [] default_max_str_digits (\<lambda>r. TransportError)
      \<lparr>get_authorization_code = Inr None, get_access_token = (\<lambda>c. Inr None)\<rparr>
     = Some [Print MsgGettingCode, Print (MsgProgramError ValueError)]
   \<and> main [] default_max_str_digits (\<lambda>r. TransportError)
      \<lparr>get_authorization_code = Inr (Some ''code''),
       get_access_token = (\<lambda>c. Inr (Some [(''token_type'', ''Bearer'')]))\<rparr>
     = Some [Print MsgGettingCode, Print MsgGettingToken, Print (MsgProgramError ValueError)]"
proof -
  have "main [] default_max_str_digits (\<lambda>r. TransportError)
      \<lparr>get_authorization_code = Inr None, get_access_token = (\<lambda>c. Inr None)\<rparr>
     = Some [Print MsgGettingCode, Print (MsgProgramError ValueError)]"
    using main_auth_failure [of "\<lparr>get_authorization_code = Inr None, get_access_token = (\<lambda>c. Inr None)\<rparr>"
        "[]" default_max_str_digits "\<lambda>r. TransportError", THEN conjunct1]
    by simp
  moreover have "main [] default_max_str_digits (\<lambda>r. TransportError)
      \<lparr>get_authorization_code = Inr (Some ''code''),
       get_access_token = (\<lambda>c. Inr (Some [(''token_type'', ''Bearer'')]))\<rparr>
     = Some [Print MsgGettingCode, Print MsgGettingToken, Print (MsgProgramError ValueError)]"
    using main_auth_failure [of "\<lparr>get_authorization_code = Inr (Some ''code''),
       get_access_token = (\<lambda>c. Inr (Some [(''token_type'', ''Bearer'')]))\<rparr>"
        "[]" default_max_str_digits "\<lambda>r. TransportError", THEN conjunct2]
    by simp
  ultimately show ?thesis by (rule conjI)
qed

end
